theory Spec2Isabelle
  imports Main "HOL-Library.Sublist" "HOL-Library.Char_ord" "HOL-Library.List_Lexorder"
begin

section \<open>The sample sources: \<open>UserService\<close> and \<open>EventStore\<close>\<close>

subsection \<open>\<open>user-service.ts\<close>\<close>

text \<open>
  The class keeps a \<open>Map<string, UserRecord>\<close>. The values of a JavaScript map are
  references to objects, and \<open>deactivate\<close> writes through such a reference, so the
  records live in an object store: a reference is an index into the list of the records
  allocated so far, and allocation appends to that list.
\<close>

type_synonym ref = nat

record UserRecord =
  id' :: string
  email :: string
  active :: bool

record UserService =
  users :: "string \<rightharpoonup> ref"
  records :: "UserRecord list"

definition new_UserService :: UserService where
  "new_UserService = \<lparr>users = Map.empty, records = []\<rparr>"

text \<open>\<open>crypto.randomUUID()\<close> is the environment's choice; it is the argument \<open>uuid\<close>.\<close>

definition register :: "string \<Rightarrow> string \<Rightarrow> UserService \<Rightarrow> string \<times> UserService" where
  "register uuid mail s =
     (let r = length (records s)
      in (uuid,
          s\<lparr>records := records s @ [\<lparr>id' = uuid, email = mail, active = True\<rparr>],
            users := (users s)(uuid \<mapsto> r)\<rparr>))"

text \<open>\<open>findById\<close> returns the reference held by the map, or \<open>null\<close> (here \<open>None\<close>).\<close>

definition findById :: "string \<Rightarrow> UserService \<Rightarrow> ref option" where
  "findById i s = users s i"

definition deactivate :: "string \<Rightarrow> UserService \<Rightarrow> bool \<times> UserService" where
  "deactivate i s =
     (case users s i of
        None \<Rightarrow> (False, s)
      | Some r \<Rightarrow> (True, s\<lparr>records := (records s)[r := (records s ! r)\<lparr>active := False\<rparr>]\<rparr>))"

text \<open>The record a key stands for: the map entry, dereferenced.\<close>

definition user_at :: "UserService \<Rightarrow> string \<Rightarrow> UserRecord option" where
  "user_at s k = map_option (\<lambda>r. records s ! r) (users s k)"

text \<open>
  Every state the class can reach keeps each key on an allocated record of its own:
  \<open>register\<close> is the only writer of the map and stores a new object each time.
\<close>

definition users_ok :: "UserService \<Rightarrow> bool" where
  "users_ok s \<longleftrightarrow>
     (\<forall>k r. users s k = Some r \<longrightarrow> r < length (records s)) \<and>
     (\<forall>k k' r. users s k = Some r \<longrightarrow> users s k' = Some r \<longrightarrow> k = k')"

lemma users_ok_new: "users_ok new_UserService"
  by (simp add: users_ok_def new_UserService_def)

lemma users_ok_register: "users_ok s \<Longrightarrow> users_ok (snd (register u m s))"
  unfolding users_ok_def register_def Let_def
  by (auto split: if_splits simp: less_Suc_eq)

lemma users_ok_deactivate: "users_ok s \<Longrightarrow> users_ok (snd (deactivate i s))"
  unfolding users_ok_def deactivate_def
  by (auto split: option.splits)

text \<open>
  C10. \<open>deactivate\<close> on an id without a user returns \<open>false\<close> and changes nothing; on an id
  with a user it returns \<open>true\<close>, the map itself is unchanged, that user's record differs
  from the old one in the \<open>active\<close> flag only (now \<open>false\<close>; \<open>id\<close> and \<open>email\<close> as before),
  and every other key still stands for the record it stood for.
\<close>

theorem deactivate_frame:
  assumes "users_ok s"
  shows "(users s i = None \<longrightarrow> deactivate i s = (False, s)) \<and>
         (\<forall>u. user_at s i = Some u \<longrightarrow>
            fst (deactivate i s) = True \<and>
            users (snd (deactivate i s)) = users s \<and>
            user_at (snd (deactivate i s)) i = Some (u\<lparr>active := False\<rparr>) \<and>
            id' (u\<lparr>active := False\<rparr>) = id' u \<and> email (u\<lparr>active := False\<rparr>) = email u \<and>
            (\<forall>k. k \<noteq> i \<longrightarrow> user_at (snd (deactivate i s)) k = user_at s k))"
proof (intro conjI impI allI)
  assume "users s i = None"
  then show "deactivate i s = (False, s)" by (simp add: deactivate_def)
next
  fix u assume u: "user_at s i = Some u"
  then obtain r where r: "users s i = Some r" and ur: "u = records s ! r"
    by (auto simp: user_at_def)
  from assms r have lt: "r < length (records s)" by (auto simp: users_ok_def)
  show "fst (deactivate i s) = True" using r by (simp add: deactivate_def)
  show "users (snd (deactivate i s)) = users s" using r by (simp add: deactivate_def)
  show "user_at (snd (deactivate i s)) i = Some (u\<lparr>active := False\<rparr>)"
    using r ur lt by (simp add: deactivate_def user_at_def)
  show "id' (u\<lparr>active := False\<rparr>) = id' u" by simp
  show "email (u\<lparr>active := False\<rparr>) = email u" by simp
  fix k assume ki: "k \<noteq> i"
  show "user_at (snd (deactivate i s)) k = user_at s k"
  proof (cases "users s k")
    case None
    then show ?thesis using r by (simp add: deactivate_def user_at_def)
  next
    case (Some r')
    with assms r ki have "r' \<noteq> r" by (auto simp: users_ok_def)
    then show ?thesis using r Some by (simp add: deactivate_def user_at_def)
  qed
qed

theorem deactivate_frame_witness:
  "users_ok (snd (register ''u2'' ''bob@example.com''
                 (snd (register ''u1'' ''alice@example.com'' new_UserService)))) \<and>
   deactivate ''u3'' (snd (register ''u2'' ''bob@example.com''
                 (snd (register ''u1'' ''alice@example.com'' new_UserService)))) =
     (False, snd (register ''u2'' ''bob@example.com''
                 (snd (register ''u1'' ''alice@example.com'' new_UserService)))) \<and>
   user_at (snd (deactivate ''u1'' (snd (register ''u2'' ''bob@example.com''
                 (snd (register ''u1'' ''alice@example.com'' new_UserService)))))) ''u1'' =
     Some \<lparr>id' = ''u1'', email = ''alice@example.com'', active = False\<rparr> \<and>
   user_at (snd (deactivate ''u1'' (snd (register ''u2'' ''bob@example.com''
                 (snd (register ''u1'' ''alice@example.com'' new_UserService)))))) ''u2'' =
     Some \<lparr>id' = ''u2'', email = ''bob@example.com'', active = True\<rparr>"
proof -
  let ?s = "snd (register ''u2'' ''bob@example.com''
                 (snd (register ''u1'' ''alice@example.com'' new_UserService)))"
  have ok: "users_ok ?s"
    by (intro users_ok_register users_ok_new)
  have none: "users ?s ''u3'' = None"
    by (simp add: register_def new_UserService_def)
  have u1: "user_at ?s ''u1'' = Some \<lparr>id' = ''u1'', email = ''alice@example.com'', active = True\<rparr>"
    by (simp add: register_def new_UserService_def user_at_def)
  have u2: "user_at ?s ''u2'' = Some \<lparr>id' = ''u2'', email = ''bob@example.com'', active = True\<rparr>"
    by (simp add: register_def new_UserService_def user_at_def)
  from deactivate_frame [OF ok, of "''u3''"] none
  have a: "deactivate ''u3'' ?s = (False, ?s)" by blast
  from deactivate_frame [OF ok, of "''u1''"] u1
  have b: "user_at (snd (deactivate ''u1'' ?s)) ''u1'' =
             Some \<lparr>id' = ''u1'', email = ''alice@example.com'', active = False\<rparr>"
    and c: "\<forall>k. k \<noteq> ''u1'' \<longrightarrow> user_at (snd (deactivate ''u1'' ?s)) k = user_at ?s k"
    by auto
  from c have "user_at (snd (deactivate ''u1'' ?s)) ''u2'' = user_at ?s ''u2''" by simp
  with u2 ok a b show ?thesis by simp
qed

subsection \<open>\<open>event-store.ts\<close>\<close>

text \<open>
  The store's private field \<open>events\<close> holds a reference to an array, and the elements of
  that array are references to event objects. Both kinds of object live in a heap, a
  reference being an index into the list of objects allocated so far. \<open>payload\<close> has the
  TypeScript type \<open>unknown\<close>: a type parameter here. \<open>Date.now()\<close> is the argument \<open>now\<close>.
\<close>

record 'p DomainEvent =
  type' :: string
  payload :: 'p
  timestamp :: int

record 'p js_heap =
  arrays :: "ref list list"
  objects :: "'p DomainEvent list"

record EventStore =
  events :: ref

text \<open>The field initialiser \<open>events: DomainEvent[] = []\<close> allocates the empty array.\<close>

definition new_EventStore :: "'p js_heap \<Rightarrow> EventStore \<times> 'p js_heap" where
  "new_EventStore h = (\<lparr>events = length (arrays h)\<rparr>, h\<lparr>arrays := arrays h @ [[]]\<rparr>)"

text \<open>\<open>this.events.push({ type, payload, timestamp: Date.now() })\<close>\<close>

definition append :: "EventStore \<Rightarrow> string \<Rightarrow> 'p \<Rightarrow> int \<Rightarrow> 'p js_heap \<Rightarrow> 'p js_heap" where
  "append st t p now h =
     (let o_ref = length (objects h)
      in h\<lparr>objects := objects h @ [\<lparr>type' = t, payload = p, timestamp = now\<rparr>],
           arrays := (arrays h)[events st := arrays h ! events st @ [o_ref]]\<rparr>)"

text \<open>\<open>[...this.events]\<close> allocates a new array with the same element references.\<close>

definition getAll :: "EventStore \<Rightarrow> 'p js_heap \<Rightarrow> ref \<times> 'p js_heap" where
  "getAll st h = (length (arrays h), h\<lparr>arrays := arrays h @ [arrays h ! events st]\<rparr>)"

text \<open>\<open>this.events.filter((e) => e.type === type)\<close> allocates the filtered array.\<close>

definition getByType :: "EventStore \<Rightarrow> string \<Rightarrow> 'p js_heap \<Rightarrow> ref \<times> 'p js_heap" where
  "getByType st t h =
     (length (arrays h),
      h\<lparr>arrays := arrays h @ [filter (\<lambda>r. type' (objects h ! r) = t) (arrays h ! events st)]\<rparr>)"

text \<open>The events an array reference stands for, in the array's order.\<close>

definition contents :: "'p js_heap \<Rightarrow> ref \<Rightarrow> 'p DomainEvent list" where
  "contents h a = map (\<lambda>r. objects h ! r) (arrays h ! a)"

text \<open>
  Any mutation of one array (\<open>push\<close>, \<open>pop\<close>, \<open>splice\<close>, \<open>sort\<close>, an index or \<open>length\<close>
  assignment) replaces the element list of that array and nothing else.
\<close>

definition mutate_array :: "ref \<Rightarrow> ref list \<Rightarrow> 'p js_heap \<Rightarrow> 'p js_heap" where
  "mutate_array a xs h = h\<lparr>arrays := (arrays h)[a := xs]\<rparr>"

text \<open>A run of \<open>append\<close> calls, oldest first: \<open>(type, payload, Date.now())\<close> each.\<close>

fun appends :: "EventStore \<Rightarrow> (string \<times> 'p \<times> int) list \<Rightarrow> 'p js_heap \<Rightarrow> 'p js_heap" where
  "appends st [] h = h"
| "appends st ((t, p, now) # es) h = appends st es (append st t p now h)"

definition event_of :: "string \<times> 'p \<times> int \<Rightarrow> 'p DomainEvent" where
  "event_of e = (case e of (t, p, now) \<Rightarrow> \<lparr>type' = t, payload = p, timestamp = now\<rparr>)"

text \<open>
  A store whose array is allocated and holds references to allocated event objects only;
  \<open>new_EventStore\<close> gives such a store and \<open>append\<close> keeps it so.
\<close>

definition store_ok :: "EventStore \<Rightarrow> 'p js_heap \<Rightarrow> bool" where
  "store_ok st h \<longleftrightarrow>
     events st < length (arrays h) \<and> list_all (\<lambda>r. r < length (objects h)) (arrays h ! events st)"

lemma store_ok_new: "store_ok (fst (new_EventStore h)) (snd (new_EventStore h))"
  by (simp add: store_ok_def new_EventStore_def)

lemma store_ok_append: "store_ok st h \<Longrightarrow> store_ok st (append st t p now h)"
  by (auto simp: store_ok_def append_def Let_def list_all_iff less_Suc_eq)

lemma contents_append:
  assumes "store_ok st h"
  shows "contents (append st t p now h) (events st) =
         contents h (events st) @ [\<lparr>type' = t, payload = p, timestamp = now\<rparr>]"
proof -
  from assms have lt: "events st < length (arrays h)"
    and refs: "\<forall>r \<in> set (arrays h ! events st). r < length (objects h)"
    by (auto simp: store_ok_def list_all_iff)
  from refs have "map (\<lambda>r. (objects h @ [\<lparr>type' = t, payload = p, timestamp = now\<rparr>]) ! r)
                   (arrays h ! events st) = map (\<lambda>r. objects h ! r) (arrays h ! events st)"
    by (simp add: nth_append)
  with lt show ?thesis
    by (simp add: contents_def append_def Let_def)
qed

lemma contents_appends:
  "store_ok st h \<Longrightarrow>
   contents (appends st es h) (events st) = contents h (events st) @ map event_of es"
proof (induction es arbitrary: h)
  case Nil
  then show ?case by simp
next
  case (Cons e es)
  obtain t p now where e: "e = (t, p, now)" by (cases e) auto
  from Cons.prems have ok: "store_ok st (append st t p now h)" by (rule store_ok_append)
  show ?case
    using Cons.IH [OF ok] contents_append [OF Cons.prems, of t p now]
    by (simp add: e event_of_def)
qed

text \<open>
  C9. For a store in a well-formed heap: after any run of \<open>append\<close> calls the store's array
  holds the earlier events followed by the appended ones in insertion order; \<open>getAll\<close>
  returns a reference that was not allocated before (a fresh array) with exactly the
  store's events in order; \<open>getAll\<close> and \<open>getByType\<close> leave the store's own array and all
  event objects as they were; and whatever is done to the array that \<open>getAll\<close> returned,
  a later \<open>getAll\<close> and a later \<open>getByType\<close> answer as they would have without it.
\<close>

theorem getAll_fresh_and_frame:
  assumes "store_ok st h"
  shows "contents (appends st es h) (events st) = contents h (events st) @ map event_of es \<and>
         \<not> fst (getAll st h) < length (arrays h) \<and>
         fst (getAll st h) \<noteq> events st \<and>
         contents (snd (getAll st h)) (fst (getAll st h)) = contents h (events st) \<and>
         arrays (snd (getAll st h)) ! events st = arrays h ! events st \<and>
         objects (snd (getAll st h)) = objects h \<and>
         arrays (snd (getByType st t h)) ! events st = arrays h ! events st \<and>
         objects (snd (getByType st t h)) = objects h \<and>
         contents (snd (getByType st t h)) (fst (getByType st t h))
           = filter (\<lambda>e. type' e = t) (contents h (events st)) \<and>
         contents (snd (getAll st (mutate_array (fst (getAll st h)) xs (snd (getAll st h)))))
                  (fst (getAll st (mutate_array (fst (getAll st h)) xs (snd (getAll st h)))))
           = contents h (events st) \<and>
         contents (snd (getByType st t (mutate_array (fst (getAll st h)) xs (snd (getAll st h)))))
                  (fst (getByType st t (mutate_array (fst (getAll st h)) xs (snd (getAll st h)))))
           = filter (\<lambda>e. type' e = t) (contents h (events st))"
proof -
  from assms have lt: "events st < length (arrays h)" by (simp add: store_ok_def)
  have a: "contents (appends st es h) (events st) = contents h (events st) @ map event_of es"
    using assms by (rule contents_appends)
  have b: "\<not> fst (getAll st h) < length (arrays h)" "fst (getAll st h) \<noteq> events st"
    using lt by (simp_all add: getAll_def)
  have c: "contents (snd (getAll st h)) (fst (getAll st h)) = contents h (events st)"
    by (simp add: getAll_def contents_def)
  have d: "arrays (snd (getAll st h)) ! events st = arrays h ! events st"
          "objects (snd (getAll st h)) = objects h"
          "arrays (snd (getByType st t h)) ! events st = arrays h ! events st"
          "objects (snd (getByType st t h)) = objects h"
    using lt by (simp_all add: getAll_def getByType_def nth_append)
  have e: "contents (snd (getByType st t h)) (fst (getByType st t h))
           = filter (\<lambda>e. type' e = t) (contents h (events st))"
    by (simp add: getByType_def contents_def filter_map comp_def)
  have lt': "events st < length (arrays (snd (getAll st h)))"
    and ge: "length (arrays h) \<le> fst (getAll st h)"
    and same: "contents (snd (getAll st h)) (events st) = contents h (events st)"
    using lt by (simp_all add: getAll_def contents_def nth_append)
  have f: "contents (snd (getAll st (mutate_array (fst (getAll st h)) xs (snd (getAll st h)))))
                  (fst (getAll st (mutate_array (fst (getAll st h)) xs (snd (getAll st h)))))
           = contents h (events st)"
    using lt by (simp add: getAll_def mutate_array_def contents_def nth_append)
  have g: "contents (snd (getByType st t (mutate_array (fst (getAll st h)) xs (snd (getAll st h)))))
                  (fst (getByType st t (mutate_array (fst (getAll st h)) xs (snd (getAll st h)))))
           = filter (\<lambda>e. type' e = t) (contents h (events st))"
    using lt by (simp add: getAll_def getByType_def mutate_array_def contents_def nth_append filter_map comp_def)
  from a b c d e f g show ?thesis by simp
qed

theorem getAll_fresh_and_frame_witness:
  "store_ok \<lparr>events = 0\<rparr>
     \<lparr>arrays = [[0, 1]],
      objects = [\<lparr>type' = ''created'', payload = (7::nat), timestamp = 100\<rparr>,
                 \<lparr>type' = ''deleted'', payload = 8, timestamp = 200\<rparr>]\<rparr> \<and>
   contents
     (snd (getAll \<lparr>events = 0\<rparr> (mutate_array 1 []
        (snd (getAll \<lparr>events = 0\<rparr>
           \<lparr>arrays = [[0, 1]],
            objects = [\<lparr>type' = ''created'', payload = (7::nat), timestamp = 100\<rparr>,
                       \<lparr>type' = ''deleted'', payload = 8, timestamp = 200\<rparr>]\<rparr>)))))
     2
   = [\<lparr>type' = ''created'', payload = 7, timestamp = 100\<rparr>,
      \<lparr>type' = ''deleted'', payload = 8, timestamp = 200\<rparr>]"
proof -
  let ?st = "\<lparr>events = 0\<rparr>"
  let ?h = "\<lparr>arrays = [[0, 1]],
             objects = [\<lparr>type' = ''created'', payload = (7::nat), timestamp = 100\<rparr>,
                        \<lparr>type' = ''deleted'', payload = 8, timestamp = 200\<rparr>]\<rparr>"
  have ok: "store_ok ?st ?h" by (simp add: store_ok_def)
  have r: "fst (getAll ?st ?h) = 1" by (simp add: getAll_def)
  have r': "fst (getAll ?st (mutate_array 1 [] (snd (getAll ?st ?h)))) = 2"
    by (simp add: getAll_def mutate_array_def)
  have c: "contents ?h (events ?st) =
             [\<lparr>type' = ''created'', payload = 7, timestamp = 100\<rparr>,
              \<lparr>type' = ''deleted'', payload = 8, timestamp = 200\<rparr>]"
    by (simp add: contents_def)
  from getAll_fresh_and_frame [OF ok, of "[]" "''created''" "[]"]
  have "contents (snd (getAll ?st (mutate_array (fst (getAll ?st ?h)) [] (snd (getAll ?st ?h)))))
                 (fst (getAll ?st (mutate_array (fst (getAll ?st ?h)) [] (snd (getAll ?st ?h)))))
        = contents ?h (events ?st)"
    by blast
  with ok r r' c show ?thesis by simp
qed

section \<open>The capture pipeline: \<open>scripts/generate-article-outputs.sh\<close>\<close>

subsection \<open>Files, directories and text\<close>

text \<open>
  A directory is the list of its entries, name and node; a node is a regular file with its
  bytes or a directory. Names are looked up with \<open>lookup\<close>; \<open>remove\<close> is \<open>rm -rf\<close> of one
  entry, and \<open>put\<close> leaves exactly one entry of the given name. File operations fail only
  for a missing or ill-typed path: permissions and full disks are outside the model.
\<close>

datatype node = File string | Dir "(string \<times> node) list"

type_synonym dir = "(string \<times> node) list"

definition lookup :: "('k \<times> 'v) list \<Rightarrow> 'k \<Rightarrow> 'v option" where
  "lookup d n = map_of d n"

definition remove :: "'k \<Rightarrow> ('k \<times> 'v) list \<Rightarrow> ('k \<times> 'v) list" where
  "remove n d = filter (\<lambda>e. fst e \<noteq> n) d"

definition put :: "'k \<Rightarrow> 'v \<Rightarrow> ('k \<times> 'v) list \<Rightarrow> ('k \<times> 'v) list" where
  "put n x d = (n, x) # remove n d"

text \<open>The shell tests \<open>[ -d n ]\<close> and \<open>[ -f n ]\<close> in the directory \<open>d\<close>.\<close>

definition is_dir :: "dir \<Rightarrow> string \<Rightarrow> bool" where
  "is_dir d n = (case lookup d n of Some (Dir es) \<Rightarrow> True | _ \<Rightarrow> False)"

definition is_file :: "dir \<Rightarrow> string \<Rightarrow> bool" where
  "is_file d n = (case lookup d n of Some (File c) \<Rightarrow> True | _ \<Rightarrow> False)"

text \<open>\<open>cp n dst/\<close> and \<open>cp -r n/ dst/n/\<close>: the node named \<open>n\<close> of \<open>src\<close> becomes the entry \<open>n\<close> of \<open>dst\<close>.\<close>

definition cp_into :: "string \<Rightarrow> dir \<Rightarrow> dir \<Rightarrow> dir" where
  "cp_into n src dst = (case lookup src n of None \<Rightarrow> dst | Some x \<Rightarrow> put n x dst)"

text \<open>\<open>find p -type f\<close>: the paths of the regular files at and below \<open>p\<close>.\<close>

fun find_files :: "string \<Rightarrow> node \<Rightarrow> string list" where
  "find_files p (File c) = [p]"
| "find_files p (Dir es) = concat (map (\<lambda>e. find_files (p @ ''/'' @ fst e) (snd e)) es)"

text \<open>
  \<open>echo s\<close> writes \<open>s\<close> and a newline; \<open>$(...)\<close> drops the trailing newlines of what the
  command wrote; \<open>c || true\<close> has status 0 whatever the status of \<open>c\<close>.
\<close>

definition echo :: "string \<Rightarrow> string" where
  "echo s = s @ [CHR 0x0A]"

definition cmd_subst :: "string \<Rightarrow> string" where
  "cmd_subst s = rev (dropWhile (\<lambda>c. c = CHR 0x0A) (rev s))"

definition or_true :: "nat \<Rightarrow> nat" where
  "or_true rc = (if rc = 0 then rc else 0)"

text \<open>
  The pattern of \<open>-path 'd*'\<close>: in \<open>find\<close> the star also matches slashes, so the pattern
  matches the paths that begin with \<open>d\<close>.
\<close>

definition path_matches :: "string \<Rightarrow> string \<Rightarrow> bool" where
  "path_matches d p = prefix d p"

subsection \<open>State and environment\<close>

text \<open>
  The script works in the project directory. Its own directory \<open>$OUT = scripts/outputs\<close>
  is kept apart from the rest of the project tree: \<open>outputs\<close> are the regular files directly
  in \<open>$OUT\<close> (file name and bytes) and \<open>snapshots\<close> the directories under \<open>$OUT/snapshots\<close>,
  by label. No cell of the notebook names \<open>scripts/outputs\<close>, so the cells act on \<open>proj\<close>,
  the project tree without \<open>$OUT\<close>. The field \<open>log\<close> records the calls of the three helper
  functions in the order they are made; the script never reads it.
\<close>

datatype step = RunCell string | CaptureEnv | Snapshot string

record state =
  proj :: dir
  outputs :: "(string \<times> string) list"
  snapshots :: "(string \<times> dir) list"
  log :: "step list"

text \<open>
  The external commands. \<open>runme w cell p\<close> is
  \<open>runme run cell --filename TUTORIAL-RUNME.md\<close> started in the project tree \<open>p\<close>: its exit
  status, what it wrote to stdout and stderr, merged, and the project tree it leaves. The
  others give exit status and stdout; \<open>node_pkg\<close> is the \<open>node -e\<close> call that prints the
  installed package's version, which reads the project tree.
\<close>

record world =
  runme :: "string \<Rightarrow> dir \<Rightarrow> nat \<times> string \<times> dir"
  date_utc :: "nat \<times> string"
  node_version :: "nat \<times> string"
  npm_version :: "nat \<times> string"
  uname_s :: "nat \<times> string"
  uname_r :: "nat \<times> string"
  node_pkg :: "dir \<Rightarrow> nat \<times> string"

subsection \<open>The helper functions\<close>

text \<open>
  \<open>runme run "$cell" --filename "$NOTEBOOK" > "$OUT/$cell.txt" 2>&1 || true\<close>
\<close>

definition run_and_capture :: "world \<Rightarrow> string \<Rightarrow> state \<Rightarrow> nat \<times> state" where
  "run_and_capture w cell st =
     (case runme w cell (proj st) of
        (rc, out, p') \<Rightarrow>
          (or_true rc,
           st\<lparr>proj := p',
              outputs := put (cell @ ''.txt'') out (outputs st),
              log := log st @ [RunCell cell]\<rparr>))"

text \<open>The directory \<open>$OUT\<close> as a node, for \<open>find\<close>.\<close>

definition out_dir :: "state \<Rightarrow> dir" where
  "out_dir st =
     map (\<lambda>e. (fst e, File (snd e))) (outputs st) @
     [(''snapshots'', Dir (map (\<lambda>e. (fst e, Dir (snd e))) (snapshots st)))]"

definition find_all :: "state \<Rightarrow> string list" where
  "find_all st =
     find_files ''.'' (Dir (proj st)) @ find_files ''./scripts/outputs'' (Dir (out_dir st))"

text \<open>
  \<open>find . -type f -not -path ... | sort\<close>: one line per file; \<open>sort\<close> orders the lines
  bytewise (the collation of the C locale).
\<close>

definition kept :: "string \<Rightarrow> bool" where
  "kept p \<longleftrightarrow> \<not> path_matches ''./node_modules/'' p \<and>
            \<not> path_matches ''./.git/'' p \<and>
            \<not> path_matches ''./.claude/'' p \<and>
            \<not> path_matches ''./.tutorial-snapshots/'' p \<and>
            \<not> path_matches ''./scripts/outputs/'' p \<and>
            \<not> path_matches ''./vhs/output/'' p"

definition tree_listing :: "state \<Rightarrow> string list" where
  "tree_listing st = sort (filter kept (find_all st))"

text \<open>
  \<open>snapshot_files\<close>. The script runs under \<open>set -e\<close>: the unguarded \<open>cp package.json\<close>
  ends the script with status 1 when there is no regular file \<open>package.json\<close>, and the
  state is then the one reached so far. A guard \<open>[ -f x ] && cp x ...\<close> that fails does
  not end the script. Within one run the directory of a label is new; for a label that
  already has a directory, \<open>mkdir -p\<close> keeps it and a copy replaces the entry of its name.
\<close>

definition snapshot_files :: "string \<Rightarrow> state \<Rightarrow> nat \<times> state" where
  "snapshot_files label st =
     (let st0 = st\<lparr>log := log st @ [Snapshot label]\<rparr>;
          d0 = (case lookup (snapshots st) label of None \<Rightarrow> [] | Some d \<Rightarrow> d);
          d1 = (if is_dir (proj st) ''src'' then cp_into ''src'' (proj st) d0 else d0);
          d2 = (if is_file (proj st) ''delivery-process.config.ts''
                then cp_into ''delivery-process.config.ts'' (proj st) d1 else d1);
          d3 = (if is_file (proj st) ''tsconfig.json''
                then cp_into ''tsconfig.json'' (proj st) d2 else d2)
      in if \<not> is_file (proj st) ''package.json''
         then (1, st0\<lparr>snapshots := put label d3 (snapshots st)\<rparr>)
         else
           (let d4 = cp_into ''package.json'' (proj st) d3;
                d5 = (if is_dir (proj st) ''docs-generated''
                      then cp_into ''docs-generated'' (proj st) d4 else d4);
                st5 = st0\<lparr>snapshots := put label d5 (snapshots st)\<rparr>;
                d6 = put ''tree.txt'' (File (concat (map echo (tree_listing st5)))) d5
            in (0, st0\<lparr>snapshots := put label d6 (snapshots st)\<rparr>)))"

text \<open>
  \<open>capture_environment\<close>: five \<open>echo\<close> lines into \<open>$OUT/environment.txt\<close>. A command
  substitution that fails inside the argument of \<open>echo\<close> does not fail the \<open>echo\<close>. The
  last line runs \<open>node -e ... 2>/dev/null || echo 'unknown'\<close> inside the substitution.
\<close>

definition package_value :: "nat \<times> string \<Rightarrow> string" where
  "package_value r = cmd_subst (snd r @ (if fst r \<noteq> 0 then echo ''unknown'' else []))"

definition environment_txt :: "world \<Rightarrow> dir \<Rightarrow> string" where
  "environment_txt w p =
     echo (''date: '' @ cmd_subst (snd (date_utc w))) @
     echo (''node: '' @ cmd_subst (snd (node_version w))) @
     echo (''npm: '' @ cmd_subst (snd (npm_version w))) @
     echo (''os: '' @ cmd_subst (snd (uname_s w)) @ '' '' @ cmd_subst (snd (uname_r w))) @
     echo (''package: '' @ package_value (node_pkg w p))"

definition capture_environment :: "world \<Rightarrow> state \<Rightarrow> nat \<times> state" where
  "capture_environment w st =
     (0, st\<lparr>outputs := put ''environment.txt'' (environment_txt w (proj st)) (outputs st),
            log := log st @ [CaptureEnv]\<rparr>)"

subsection \<open>The script\<close>

text \<open>
  Lines 86 to 189 of the script are a straight line of calls of the three helpers; they
  are listed here in the script's order, one phase per group.
\<close>

definition pipeline_steps :: "step list" where
  "pipeline_steps =
     [RunCell ''reset-workspace'', RunCell ''install-deps'', CaptureEnv,
      Snapshot ''00-setup'',
      RunCell ''verify-deps'', RunCell ''create-tsconfig'', RunCell ''create-folders'',
      RunCell ''checkpoint-1'', Snapshot ''01-project-setup'',
      RunCell ''create-config'', RunCell ''add-npm-scripts'', RunCell ''first-overview'',
      RunCell ''checkpoint-2'', Snapshot ''02-configuration'',
      RunCell ''create-user-service-v1'', RunCell ''overview-after-first'',
      RunCell ''sources-after-first'', Snapshot ''03-first-annotation'',
      RunCell ''create-user-service-v2'', RunCell ''tags-after-richness'',
      RunCell ''overview-after-richness'', Snapshot ''04-richness'',
      RunCell ''create-user-service-final'', RunCell ''create-auth-handler'',
      RunCell ''create-event-store'', RunCell ''overview-with-deps'',
      RunCell ''dep-tree-auth'', RunCell ''arch-contexts'', RunCell ''list-roadmap'',
      RunCell ''checkpoint-5'', Snapshot ''05-relationships'',
      RunCell ''gen-patterns'', RunCell ''gen-roadmap'', RunCell ''list-generated'',
      RunCell ''checkpoint-6'', Snapshot ''06-doc-generation'',
      RunCell ''create-user-reg-feature'', RunCell ''create-auth-feature'',
      RunCell ''query-rules'', RunCell ''gen-business-rules'',
      RunCell ''overview-after-gherkin'', RunCell ''sources-after-gherkin'',
      RunCell ''checkpoint-7'', Snapshot ''07-gherkin'',
      RunCell ''create-notification-stub'', RunCell ''query-stubs'',
      RunCell ''checkpoint-8'', Snapshot ''08-stubs'',
      RunCell ''gen-all'', RunCell ''list-all-generated'', RunCell ''add-reference-config'',
      RunCell ''gen-reference'', RunCell ''list-generators'', RunCell ''lint-patterns'',
      RunCell ''checkpoint-9'', Snapshot ''09-full-generation'',
      RunCell ''arch-neighborhood'', RunCell ''arch-blocking'', RunCell ''arch-dangling'',
      RunCell ''pattern-detail'', RunCell ''count-roadmap'', RunCell ''final-overview'',
      RunCell ''final-verification'', Snapshot ''10-advanced'']"

fun exec_step :: "world \<Rightarrow> step \<Rightarrow> state \<Rightarrow> nat \<times> state" where
  "exec_step w (RunCell cell) st = run_and_capture w cell st"
| "exec_step w CaptureEnv st = capture_environment w st"
| "exec_step w (Snapshot label) st = snapshot_files label st"

text \<open>\<open>set -e\<close>: the first call that ends with a status other than 0 ends the script with it.\<close>

fun run_steps :: "world \<Rightarrow> step list \<Rightarrow> state \<Rightarrow> nat \<times> state" where
  "run_steps w [] st = (0, st)"
| "run_steps w (s # ss) st =
     (case exec_step w s st of
        (rc, st') \<Rightarrow> if rc \<noteq> 0 then (rc, st') else run_steps w ss st')"

text \<open>
  The summary lists \<open>"$OUT"/*.txt\<close> and \<open>"$OUT"/snapshots/*/\<close> through \<open>wc -l\<close>; under
  \<open>pipefail\<close> an \<open>ls\<close> that matches nothing (status 2) ends the script.
\<close>

definition glob_txt :: "string \<Rightarrow> bool" where
  "glob_txt n \<longleftrightarrow> suffix ''.txt'' n \<and> \<not> prefix ''.'' n"

definition summary :: "state \<Rightarrow> nat \<times> state" where
  "summary st =
     (if filter glob_txt (map fst (outputs st)) = [] then (2, st)
      else if snapshots st = [] then (2, st)
      else (0, st))"

text \<open>
  The whole script after \<open>cd "$PROJECT_DIR"\<close>: \<open>rm -rf "$OUT"\<close> and
  \<open>mkdir -p "$OUT/snapshots"\<close>, the calls, the summary. The result is the exit code of the
  process and the state it leaves.
\<close>

definition main :: "world \<Rightarrow> state \<Rightarrow> nat \<times> state" where
  "main w st =
     (case run_steps w pipeline_steps (st\<lparr>outputs := [], snapshots := []\<rparr>) of
        (rc, st') \<Rightarrow> if rc \<noteq> 0 then (rc, st') else summary st')"

subsection \<open>The helper functions, verified\<close>

lemma lookup_put_same: "lookup (put n x d) n = Some x"
  by (simp add: lookup_def put_def)

lemma lookup_remove_same: "lookup (remove n d) n = None"
  by (simp add: lookup_def remove_def map_of_eq_None_iff image_iff)

lemma lookup_remove_other: "m \<noteq> n \<Longrightarrow> lookup (remove n d) m = lookup d m"
  unfolding lookup_def remove_def by (induction d) auto

lemma lookup_put_other: "m \<noteq> n \<Longrightarrow> lookup (put n x d) m = lookup d m"
  using lookup_remove_other [of m n d] by (simp add: put_def lookup_def)

lemma count_put: "length (filter (\<lambda>e. fst e = n) (put n x d)) = 1"
  by (simp add: put_def remove_def)

lemma remove_put: "remove n (put n x d) = remove n d"
  by (simp add: put_def remove_def)

text \<open>
  C2. For every cell, whatever the exit status of its command sequence, \<open>run_and_capture\<close>
  returns with status 0; afterwards \<open>$OUT\<close> has exactly one file named \<open><cell>.txt\<close>, its
  bytes are the merged stdout and stderr of the run as they came, and every other file of
  \<open>$OUT\<close> and every snapshot is as before.
\<close>

theorem run_and_capture_captures:
  "fst (run_and_capture w cell st) = 0 \<and>
   lookup (outputs (snd (run_and_capture w cell st))) (cell @ ''.txt'')
     = Some (fst (snd (runme w cell (proj st)))) \<and>
   length (filter (\<lambda>e. fst e = cell @ ''.txt'') (outputs (snd (run_and_capture w cell st)))) = 1 \<and>
   remove (cell @ ''.txt'') (outputs (snd (run_and_capture w cell st)))
     = remove (cell @ ''.txt'') (outputs st) \<and>
   snapshots (snd (run_and_capture w cell st)) = snapshots st"
  by (simp add: run_and_capture_def or_true_def lookup_put_same count_put remove_put
           split: prod.splits)




lemma find_files_prefix: "x \<in> set (find_files p n) \<Longrightarrow> prefix p x"
proof (induction p n arbitrary: x rule: find_files.induct)
  case (1 p c)
  then show ?case by simp
next
  case (2 p es)
  then obtain e where e: "e \<in> set es" and x: "x \<in> set (find_files (p @ ''/'' @ fst e) (snd e))"
    by auto
  from "2.IH" [OF e x] have "prefix (p @ ''/'' @ fst e) x" .
  then show ?case by (meson append_prefixD)
qed

lemma find_files_dir_prefix:
  assumes "x \<in> set (find_files p (Dir es))"
  shows "prefix (p @ ''/'') x"
proof -
  from assms obtain e where "x \<in> set (find_files (p @ ''/'' @ fst e) (snd e))" by auto
  then have "prefix ((p @ ''/'') @ fst e) x" using find_files_prefix by fastforce
  then show ?thesis by (rule append_prefixD)
qed

lemma tree_listing_proj:
  "tree_listing st = sort (filter kept (find_files ''.'' (Dir (proj st))))"
proof -
  have "filter kept (find_files ''./scripts/outputs'' (Dir (out_dir st))) = []"
  proof -
    have "\<forall>x \<in> set (find_files ''./scripts/outputs'' (Dir (out_dir st))). \<not> kept x"
      using find_files_dir_prefix [of _ "''./scripts/outputs''" "out_dir st"]
      by (auto simp: kept_def path_matches_def)
    then show ?thesis by (simp add: filter_empty_conv)
  qed
  then show ?thesis
    unfolding tree_listing_def find_all_def by simp
qed


lemma snapshot_dir_ok:
  assumes "is_file (proj st) ''package.json''"
  shows "fst (snapshot_files label st) = 0"
    and "proj (snd (snapshot_files label st)) = proj st"
    and "lookup (snapshots (snd (snapshot_files label st))) label =
         Some (put ''tree.txt'' (File (concat (map echo (tree_listing st))))
           (let d0 = (case lookup (snapshots st) label of None \<Rightarrow> [] | Some d \<Rightarrow> d);
                d1 = (if is_dir (proj st) ''src'' then cp_into ''src'' (proj st) d0 else d0);
                d2 = (if is_file (proj st) ''delivery-process.config.ts''
                      then cp_into ''delivery-process.config.ts'' (proj st) d1 else d1);
                d3 = (if is_file (proj st) ''tsconfig.json''
                      then cp_into ''tsconfig.json'' (proj st) d2 else d2);
                d4 = cp_into ''package.json'' (proj st) d3
            in if is_dir (proj st) ''docs-generated''
               then cp_into ''docs-generated'' (proj st) d4 else d4))"
  using assms
  by (simp_all add: snapshot_files_def Let_def lookup_put_same tree_listing_proj)

lemma snapshot_fails:
  assumes "\<not> is_file (proj st) ''package.json''"
  shows "fst (snapshot_files label st) = 1"
  using assms by (simp add: snapshot_files_def Let_def)

lemma cp_into_same:
  "lookup (cp_into n src dst) n = (case lookup src n of None \<Rightarrow> lookup dst n | Some x \<Rightarrow> Some x)"
  by (simp add: cp_into_def lookup_put_same split: option.splits)

lemma cp_into_other: "m \<noteq> n \<Longrightarrow> lookup (cp_into n src dst) m = lookup dst m"
  by (simp add: cp_into_def lookup_put_other split: option.splits)

lemma is_dir_lookup: "is_dir d n \<Longrightarrow> lookup d n \<noteq> None"
  by (auto simp: is_dir_def split: option.splits)

lemma is_file_lookup: "is_file d n \<Longrightarrow> lookup d n \<noteq> None"
  by (auto simp: is_file_def split: option.splits)

lemma lookup_Nil: "lookup [] n = None"
  by (simp add: lookup_def)

text \<open>
  C3, as the script has it. When \<open>package.json\<close> is a regular file and the label has no
  directory yet, \<open>snapshot_files\<close> ends with status 0; each of \<open>src\<close>, \<open>docs-generated\<close>,
  \<open>delivery-process.config.ts\<close> and \<open>tsconfig.json\<close> that does not exist is skipped and is
  absent from the snapshot, and each one present (a directory for the first two, a regular
  file for the others) is copied, as is \<open>package.json\<close>.
\<close>

theorem snapshot_skips_missing:
  assumes "is_file (proj st) ''package.json''" and "lookup (snapshots st) label = None"
  shows "fst (snapshot_files label st) = 0 \<and>
         (\<exists>d. lookup (snapshots (snd (snapshot_files label st))) label = Some d \<and>
              (\<forall>n \<in> {''src'', ''docs-generated'', ''delivery-process.config.ts'', ''tsconfig.json''}.
                 lookup (proj st) n = None \<longrightarrow> lookup d n = None) \<and>
              (is_dir (proj st) ''src'' \<longrightarrow> lookup d ''src'' = lookup (proj st) ''src'') \<and>
              (is_dir (proj st) ''docs-generated'' \<longrightarrow>
                 lookup d ''docs-generated'' = lookup (proj st) ''docs-generated'') \<and>
              (is_file (proj st) ''delivery-process.config.ts'' \<longrightarrow>
                 lookup d ''delivery-process.config.ts'' = lookup (proj st) ''delivery-process.config.ts'') \<and>
              (is_file (proj st) ''tsconfig.json'' \<longrightarrow>
                 lookup d ''tsconfig.json'' = lookup (proj st) ''tsconfig.json'') \<and>
              lookup d ''package.json'' = lookup (proj st) ''package.json'')"
proof -
  note dir = snapshot_dir_ok(3) [OF assms(1), of label]
  have pk: "lookup (proj st) ''package.json'' \<noteq> None"
    using assms(1) by (rule is_file_lookup)
  show ?thesis
    apply (rule conjI)
     apply (rule snapshot_dir_ok(1) [OF assms(1)])
    apply (subst dir)
    using pk assms(2)
    by (auto simp: Let_def lookup_put_other cp_into_other cp_into_same lookup_Nil
             dest: is_dir_lookup is_file_lookup split: option.splits)
qed



subsection \<open>Whole runs\<close>

lemma exec_step_log: "log (snd (exec_step w s st)) = log st @ [s]"
  by (cases s)
     (simp_all add: run_and_capture_def capture_environment_def snapshot_files_def Let_def
               split: prod.splits)







text \<open>
  \<open>with_status f w\<close> is the world \<open>w\<close> with the exit status of every cell replaced by
  \<open>f\<close>; a world keeps the manifest when no cell removes a regular file \<open>package.json\<close>.
\<close>

definition with_status :: "(string \<Rightarrow> dir \<Rightarrow> nat) \<Rightarrow> world \<Rightarrow> world" where
  "with_status f w = w\<lparr>runme := \<lambda>c p. (f c p, snd (runme w c p))\<rparr>"

definition keeps_manifest :: "world \<Rightarrow> bool" where
  "keeps_manifest w \<longleftrightarrow>
     (\<forall>c p. is_file p ''package.json'' \<longrightarrow> is_file (snd (snd (runme w c p))) ''package.json'')"

lemma or_true_0: "or_true rc = 0"
  by (simp add: or_true_def)

lemma exec_step_with_status: "exec_step (with_status f w) s st = exec_step w s st"
  by (cases s)
     (simp_all add: with_status_def run_and_capture_def capture_environment_def
                    environment_txt_def or_true_0 split: prod.splits)

lemma run_steps_with_status: "run_steps (with_status f w) ss st = run_steps w ss st"
  by (induction ss arbitrary: st) (auto simp: exec_step_with_status split: prod.splits)

lemma main_with_status: "main (with_status f w) st = main w st"
  by (simp add: main_def run_steps_with_status)

lemma exec_step_status:
  "fst (exec_step w s st) = 0 \<or>
   (fst (exec_step w s st) = 1 \<and> (\<exists>l. s = Snapshot l) \<and>
    \<not> is_file (proj (snd (exec_step w s st))) ''package.json'')"
  by (cases s)
     (simp_all add: run_and_capture_def capture_environment_def snapshot_files_def Let_def
                    or_true_0 split: prod.splits)

lemma run_steps_status:
  "fst (run_steps w ss st) = 0 \<or>
   (fst (run_steps w ss st) = 1 \<and>
    \<not> is_file (proj (snd (run_steps w ss st))) ''package.json'' \<and>
    (\<exists>l. last (log (snd (run_steps w ss st))) = Snapshot l))"
proof (induction ss arbitrary: st)
  case Nil
  then show ?case by simp
next
  case (Cons s ss)
  obtain rc st' where e: "exec_step w s st = (rc, st')" by (cases "exec_step w s st")
  show ?case
  proof (cases "rc = 0")
    case True
    with e Cons.IH [of st'] show ?thesis by simp
  next
    case False
    with e exec_step_status [of w s st] exec_step_log [of w s st] show ?thesis by auto
  qed
qed

lemma exec_step_manifest:
  assumes "keeps_manifest w" and "is_file (proj st) ''package.json''"
  shows "fst (exec_step w s st) = 0 \<and> is_file (proj (snd (exec_step w s st))) ''package.json''"
proof (cases s)
  case (RunCell c)
  from assms have "is_file (snd (snd (runme w c (proj st)))) ''package.json''"
    by (simp add: keeps_manifest_def)
  then show ?thesis
    by (auto simp: RunCell run_and_capture_def or_true_0 split: prod.splits)
next
  case CaptureEnv
  with assms(2) show ?thesis by (simp add: capture_environment_def)
next
  case (Snapshot l)
  with assms(2) show ?thesis by (simp add: snapshot_files_def Let_def)
qed

lemma run_steps_manifest:
  assumes "keeps_manifest w" and "is_file (proj st) ''package.json''"
  shows "fst (run_steps w ss st) = 0"
  using assms(2)
proof (induction ss arbitrary: st)
  case Nil
  then show ?case by simp
next
  case (Cons s ss)
  obtain rc st' where e: "exec_step w s st = (rc, st')" by (cases "exec_step w s st")
  from exec_step_manifest [OF assms(1) Cons.prems, of s] e
  have "rc = 0" and "is_file (proj st') ''package.json''" by simp_all
  with e Cons.IH [of st'] show ?case by simp
qed

text \<open>Files are never removed from \<open>$OUT\<close> by a step, nor snapshots.\<close>

lemma lookup_put_mono: "lookup d m \<noteq> None \<Longrightarrow> lookup (put n x d) m \<noteq> None"
  by (cases "m = n") (simp_all add: lookup_put_same lookup_put_other)

lemma put_not_Nil: "put n x d \<noteq> []"
  by (simp add: put_def)

lemma exec_step_keeps_files:
  assumes "lookup (outputs st) m \<noteq> None"
  shows "lookup (outputs (snd (exec_step w s st))) m \<noteq> None"
  using assms
  by (cases s)
     (simp_all add: run_and_capture_def capture_environment_def snapshot_files_def Let_def
                    lookup_put_mono split: prod.splits del: not_None_eq)

lemma exec_step_keeps_snapshots:
  assumes "snapshots st \<noteq> []"
  shows "snapshots (snd (exec_step w s st)) \<noteq> []"
  using assms
  by (cases s)
     (simp_all add: run_and_capture_def capture_environment_def snapshot_files_def Let_def
                    put_not_Nil split: prod.splits)



lemma run_steps_environment:
  assumes "fst (run_steps w ss st) = 0"
    and "lookup (outputs st) ''environment.txt'' \<noteq> None \<or> CaptureEnv \<in> set ss"
  shows "lookup (outputs (snd (run_steps w ss st))) ''environment.txt'' \<noteq> None"
  using assms
proof (induction ss arbitrary: st)
  case Nil
  then show ?case by simp
next
  case (Cons s ss)
  obtain rc st' where e: "exec_step w s st = (rc, st')" by (cases "exec_step w s st")
  from Cons.prems(1) e have rc: "rc = 0" by (auto split: if_splits)
  with Cons.prems(1) e have ok: "fst (run_steps w ss st') = 0" by simp
  have "lookup (outputs st') ''environment.txt'' \<noteq> None \<or> CaptureEnv \<in> set ss"
  proof (cases "s = CaptureEnv")
    case True
    with e show ?thesis by (auto simp: capture_environment_def lookup_put_same)
  next
    case False
    show ?thesis
    proof (cases "CaptureEnv \<in> set ss")
      case True
      then show ?thesis by simp
    next
      case False
      with \<open>s \<noteq> CaptureEnv\<close> Cons.prems(2)
      have "lookup (outputs st) ''environment.txt'' \<noteq> None" by simp
      from exec_step_keeps_files [OF this, of w s] e show ?thesis by simp
    qed
  qed
  from Cons.IH [OF ok this] e rc show ?case by simp
qed

lemma run_steps_snapshot:
  assumes "fst (run_steps w ss st) = 0"
    and "snapshots st \<noteq> [] \<or> (\<exists>l. Snapshot l \<in> set ss)"
  shows "snapshots (snd (run_steps w ss st)) \<noteq> []"
  using assms
proof (induction ss arbitrary: st)
  case Nil
  then show ?case by simp
next
  case (Cons s ss)
  obtain rc st' where e: "exec_step w s st = (rc, st')" by (cases "exec_step w s st")
  from Cons.prems(1) e have rc: "rc = 0" by (auto split: if_splits)
  with Cons.prems(1) e have ok: "fst (run_steps w ss st') = 0" by simp
  have "snapshots st' \<noteq> [] \<or> (\<exists>l. Snapshot l \<in> set ss)"
  proof (cases "\<exists>l. s = Snapshot l")
    case True
    with e show ?thesis by (auto simp: snapshot_files_def Let_def put_not_Nil split: if_splits)
  next
    case False
    show ?thesis
    proof (cases "\<exists>l. Snapshot l \<in> set ss")
      case True
      then show ?thesis by simp
    next
      case no: False
      with False Cons.prems(2) have "snapshots st \<noteq> []" by auto
      from exec_step_keeps_snapshots [OF this, of w s] e show ?thesis by simp
    qed
  qed
  from Cons.IH [OF ok this] e rc show ?case by simp
qed

lemma glob_txt_environment: "glob_txt ''environment.txt''"
  by (simp add: glob_txt_def suffix_def)

lemma lookup_in_names: "lookup d n \<noteq> None \<Longrightarrow> n \<in> set (map fst d)"
  by (auto simp: lookup_def dest: map_of_SomeD intro: rev_image_eqI)

lemma pipeline_has_env: "CaptureEnv \<in> set pipeline_steps"
  by (simp add: pipeline_steps_def)

lemma pipeline_has_snapshot: "Snapshot ''00-setup'' \<in> set pipeline_steps"
  by (simp add: pipeline_steps_def)

lemma summary_after_steps:
  assumes "fst (run_steps w pipeline_steps st) = 0"
  shows "summary (snd (run_steps w pipeline_steps st)) = (0, snd (run_steps w pipeline_steps st))"
proof -
  let ?st = "snd (run_steps w pipeline_steps st)"
  have "lookup (outputs ?st) ''environment.txt'' \<noteq> None"
    using run_steps_environment [OF assms] pipeline_has_env by blast
  then have "''environment.txt'' \<in> set (map fst (outputs ?st))" by (rule lookup_in_names)
  with glob_txt_environment have "\<exists>n \<in> set (map fst (outputs ?st)). glob_txt n" by blast
  then have a: "filter glob_txt (map fst (outputs ?st)) \<noteq> []"
    by (simp only: filter_empty_conv) blast
  have b: "snapshots ?st \<noteq> []"
    using run_steps_snapshot [OF assms] pipeline_has_snapshot by blast
  from a b show ?thesis by (simp add: summary_def)
qed

lemma main_run_steps:
  "fst (main w st) = fst (run_steps w pipeline_steps (st\<lparr>outputs := [], snapshots := []\<rparr>)) \<and>
   snd (main w st) = snd (run_steps w pipeline_steps (st\<lparr>outputs := [], snapshots := []\<rparr>))"
proof (cases "fst (run_steps w pipeline_steps (st\<lparr>outputs := [], snapshots := []\<rparr>)) = 0")
  case True
  obtain rc st' where r: "run_steps w pipeline_steps (st\<lparr>outputs := [], snapshots := []\<rparr>) = (rc, st')"
    by (cases "run_steps w pipeline_steps (st\<lparr>outputs := [], snapshots := []\<rparr>)")
  from summary_after_steps [OF True] True r show ?thesis
    by (simp add: main_def)
next
  case False
  then show ?thesis by (auto simp: main_def split: prod.splits)
qed

lemma main_status:
  "fst (main w st) = 0 \<or>
   (fst (main w st) = 1 \<and> \<not> is_file (proj (snd (main w st))) ''package.json'' \<and>
    (\<exists>l. last (log (snd (main w st))) = Snapshot l))"
  using run_steps_status [of w pipeline_steps "st\<lparr>outputs := [], snapshots := []\<rparr>"]
  by (simp add: main_run_steps)

lemma pipeline_steps_first:
  "pipeline_steps = RunCell ''reset-workspace'' # tl pipeline_steps"
  by (simp add: pipeline_steps_def)

lemma main_manifest:
  assumes "keeps_manifest w"
    and "is_file (snd (snd (runme w ''reset-workspace'' (proj st)))) ''package.json''"
  shows "fst (main w st) = 0"
proof -
  let ?st0 = "st\<lparr>outputs := [], snapshots := []\<rparr>"
  let ?st1 = "snd (run_and_capture w ''reset-workspace'' ?st0)"
  have rc: "fst (run_and_capture w ''reset-workspace'' ?st0) = 0"
    by (simp add: run_and_capture_def or_true_0 split: prod.splits)
  have pk: "is_file (proj ?st1) ''package.json''"
    using assms(2) by (auto simp: run_and_capture_def split: prod.splits)
  obtain r st1 where e: "run_and_capture w ''reset-workspace'' ?st0 = (r, st1)"
    by (cases "run_and_capture w ''reset-workspace'' ?st0")
  have "run_steps w (RunCell ''reset-workspace'' # tl pipeline_steps) ?st0
          = run_steps w (tl pipeline_steps) ?st1"
    using rc e by simp
  then have "run_steps w pipeline_steps ?st0 = run_steps w (tl pipeline_steps) ?st1"
    using pipeline_steps_first by simp
  with run_steps_manifest [OF assms(1) pk, of "tl pipeline_steps"]
  show ?thesis by (simp add: main_run_steps)
qed


subsection \<open>The order of the calls\<close>






subsection \<open>Concrete runs\<close>

text \<open>
  Two environments and two starting states for concrete runs. In \<open>quiet_world\<close> every cell
  ends with status 0, prints nothing and leaves the project as it is. In \<open>failing_world\<close>
  \<open>runme\<close> is not installed, so every cell, \<open>reset-workspace\<close> included, ends with status
  127 and the shell's message, and the package's version cannot be resolved. \<open>demo_state\<close>
  is a project with a manifest, a source tree and installed modules, and a file left in
  \<open>$OUT\<close> by an earlier run; \<open>bare_state\<close> is an empty directory.
\<close>

definition quiet_world :: world where
  "quiet_world =
     \<lparr>runme = (\<lambda>c p. (0, [], p)),
      date_utc = (0, echo ''2026-02-21''),
      node_version = (0, echo ''v22.17.1''),
      npm_version = (0, echo ''11.6.1''),
      uname_s = (0, echo ''Darwin''),
      uname_r = (0, echo ''25.2.0''),
      node_pkg = (\<lambda>p. (0, echo ''1.0.0-pre.0''))\<rparr>"

definition failing_world :: world where
  "failing_world =
     \<lparr>runme = (\<lambda>c p. (127, echo ''bash: runme: command not found'', p)),
      date_utc = (0, echo ''2026-02-21''),
      node_version = (0, echo ''v22.17.1''),
      npm_version = (0, echo ''11.6.1''),
      uname_s = (0, echo ''Darwin''),
      uname_r = (0, echo ''25.2.0''),
      node_pkg = (\<lambda>p. (1, []))\<rparr>"

definition demo_state :: state where
  "demo_state =
     \<lparr>proj = [(''package.json'', File ''{}''),
              (''src'', Dir [(''b.ts'', File ''b''), (''a.ts'', File ''a'')]),
              (''node_modules'', Dir [(''m.js'', File ''m'')])],
      outputs = [(''verify-deps.txt'', ''stale'')],
      snapshots = [],
      log = []\<rparr>"

definition bare_state :: state where
  "bare_state = \<lparr>proj = [], outputs = [], snapshots = [], log = []\<rparr>"


lemma keeps_failing: "keeps_manifest failing_world"
  by (simp add: keeps_manifest_def failing_world_def)

lemma demo_manifest: "is_file (proj demo_state) ''package.json''"
  by (simp add: demo_state_def is_file_def lookup_def)

lemma bare_exit: "fst (main quiet_world bare_state) = 1"
  by (simp add: main_def pipeline_steps_def run_and_capture_def capture_environment_def
        snapshot_files_def Let_def quiet_world_def bare_state_def or_true_def is_file_def
        is_dir_def lookup_def put_def remove_def)



subsection \<open>The exit code\<close>

text \<open>
  C1, as the script has it. The result of a run does not depend on the exit status of any
  cell, \<open>reset-workspace\<close> included, since \<open>run_and_capture\<close> ends every cell with
  \<open>|| true\<close>. A run that ends with a code other than 0 ends with 1, at a snapshot that
  found no regular file \<open>package.json\<close> to copy. When \<open>package.json\<close> is there after the
  reset cell has run and no later cell removes it, the exit code is 0.
\<close>

theorem exit_code_ignores_cells:
  "main (with_status f w) st = main w st \<and>
   (fst (main w st) \<noteq> 0 \<longrightarrow>
      fst (main w st) = 1 \<and> \<not> is_file (proj (snd (main w st))) ''package.json'' \<and>
      (\<exists>l. last (log (snd (main w st))) = Snapshot l)) \<and>
   (keeps_manifest w \<and>
    is_file (snd (snd (runme w ''reset-workspace'' (proj st)))) ''package.json'' \<longrightarrow>
      fst (main w st) = 0)"
proof (intro conjI impI)
  show "main (with_status f w) st = main w st" by (rule main_with_status)
next
  assume "fst (main w st) \<noteq> 0"
  with main_status [of w st]
  show "fst (main w st) = 1" "\<not> is_file (proj (snd (main w st))) ''package.json''"
    "\<exists>l. last (log (snd (main w st))) = Snapshot l"
    by blast+
next
  assume "keeps_manifest w \<and>
    is_file (snd (snd (runme w ''reset-workspace'' (proj st)))) ''package.json''"
  then show "fst (main w st) = 0" using main_manifest [of w st] by blast
qed

text \<open>
  Without \<open>runme\<close> the reset cell fails with status 127, yet in a project that has its
  manifest the run ends with code 0; in an empty directory a run ends with code 1.
\<close>

theorem exit_code_ignores_cells_witness:
  "keeps_manifest failing_world \<and>
   is_file (snd (snd (runme failing_world ''reset-workspace'' (proj demo_state)))) ''package.json'' \<and>
   fst (runme failing_world ''reset-workspace'' (proj demo_state)) = 127 \<and>
   fst (main failing_world demo_state) = 0 \<and>
   fst (main quiet_world bare_state) \<noteq> 0 \<and>
   \<not> is_file (proj (snd (main quiet_world bare_state))) ''package.json''"
proof -
  have a: "is_file (snd (snd (runme failing_world ''reset-workspace'' (proj demo_state)))) ''package.json''"
    using demo_manifest by (simp add: failing_world_def)
  have b: "fst (runme failing_world ''reset-workspace'' (proj demo_state)) = 127"
    by (simp add: failing_world_def)
  have c: "fst (main quiet_world bare_state) \<noteq> 0"
    by (simp add: bare_exit)
  from exit_code_ignores_cells [of "\<lambda>c p. 0" failing_world demo_state] keeps_failing a
  have d: "fst (main failing_world demo_state) = 0" by blast
  from exit_code_ignores_cells [of "\<lambda>c p. 0" quiet_world bare_state] c
  have e: "\<not> is_file (proj (snd (main quiet_world bare_state))) ''package.json''" by blast
  from keeps_failing a b c d e show ?thesis by blast
qed

text \<open>
  C1 as stated fails in both directions: \<open>reset-workspace\<close> fails and the exit code is 0
  (\<open>failing_world\<close>, \<open>demo_state\<close>); \<open>reset-workspace\<close> ends with status 0 and the exit
  code is not 0 (\<open>quiet_world\<close>, \<open>bare_state\<close>).
\<close>

theorem exit_code_counterexample:
  "fst (runme failing_world ''reset-workspace'' (proj demo_state)) \<noteq> 0 \<and>
   fst (main failing_world demo_state) = 0 \<and>
   fst (runme quiet_world ''reset-workspace'' (proj bare_state)) = 0 \<and>
   fst (main quiet_world bare_state) \<noteq> 0"
proof -
  have a: "is_file (snd (snd (runme failing_world ''reset-workspace'' (proj demo_state)))) ''package.json''"
    using demo_manifest by (simp add: failing_world_def)
  have b: "fst (main failing_world demo_state) = 0"
    using keeps_failing a by (rule main_manifest)
  have c: "fst (runme failing_world ''reset-workspace'' (proj demo_state)) \<noteq> 0"
    by (simp add: failing_world_def)
  have d: "fst (runme quiet_world ''reset-workspace'' (proj bare_state)) = 0"
    by (simp add: quiet_world_def)
  have e: "fst (main quiet_world bare_state) \<noteq> 0"
    by (simp add: bare_exit)
  from b c d e show ?thesis by blast
qed





subsection \<open>Concrete snapshots and environment records\<close>

text \<open>A project without \<open>tsconfig.json\<close>: the snapshot succeeds and has no such entry.\<close>

theorem snapshot_skips_missing_witness:
  "is_file (proj demo_state) ''package.json'' \<and>
   lookup (snapshots demo_state) ''00-setup'' = None \<and>
   lookup (proj demo_state) ''tsconfig.json'' = None \<and>
   fst (snapshot_files ''00-setup'' demo_state) = 0 \<and>
   (\<exists>d. lookup (snapshots (snd (snapshot_files ''00-setup'' demo_state))) ''00-setup'' = Some d \<and>
        lookup d ''tsconfig.json'' = None \<and>
        lookup d ''src'' = Some (Dir [(''b.ts'', File ''b''), (''a.ts'', File ''a'')]))"
proof -
  have h: "lookup (snapshots demo_state) ''00-setup'' = None"
    by (simp add: demo_state_def lookup_def)
  have t: "lookup (proj demo_state) ''tsconfig.json'' = None"
    by (simp add: demo_state_def lookup_def)
  have s: "is_dir (proj demo_state) ''src''"
    "lookup (proj demo_state) ''src'' = Some (Dir [(''b.ts'', File ''b''), (''a.ts'', File ''a'')])"
    by (simp_all add: demo_state_def lookup_def is_dir_def)
  from snapshot_skips_missing [OF demo_manifest h] t s demo_manifest h
  show ?thesis by auto
qed

text \<open>
  C3 as stated covers the package manifest too; with no \<open>package.json\<close> the snapshot
  ends the script with status 1.
\<close>

theorem snapshot_counterexample:
  "lookup (proj bare_state) ''package.json'' = None \<and>
   fst (snapshot_files ''00-setup'' bare_state) = 1"
  by (simp add: snapshot_fails bare_state_def is_file_def lookup_def)




subsection \<open>The files of a run\<close>


















section \<open>The notebook cell \<open>reset-workspace\<close>\<close>

text \<open>
  The cell is three commands, run by \<open>bash\<close> without \<open>set -e\<close>:
  \<^verbatim>\<open>rm -rf src/ docs-generated/ tsconfig.json delivery-process.config.ts\<close>, a here-document
  written to \<open>package.json\<close>, and an \<open>echo\<close>, whose status is the status of the cell. The
  model gives that status and the project tree the cell leaves.
\<close>

text \<open>The here-document, line by line.\<close>

definition manifest :: string where
  \<open>manifest = concat (map echo
     [''{'',
      ''  "name": "dp-mini-demo",'',
      ''  "version": "1.0.0",'',
      ''  "type": "module",'',
      ''  "private": true,'',
      ''  "dependencies": {'',
      ''    "@libar-dev/delivery-process": "1.0.0-pre.0"'',
      ''  },'',
      ''  "devDependencies": {'',
      ''    "typescript": "^5.7.0",'',
      ''    "tsx": "^4.19.0"'',
      ''  }'',
      ''}''])\<close>

text \<open>
  \<open>rm -rf n/\<close> removes the directory \<open>n\<close>; with the trailing slash a regular file of that
  name is not a directory, and \<open>-f\<close> passes over it. \<open>cat > n\<close> cannot open a directory
  for writing and then writes nothing.
\<close>

definition rm_rf_slash :: "string \<Rightarrow> dir \<Rightarrow> dir" where
  "rm_rf_slash n d = (if is_file d n then d else remove n d)"

definition redirect_to :: "string \<Rightarrow> string \<Rightarrow> dir \<Rightarrow> dir" where
  "redirect_to n c d = (if is_dir d n then d else put n (File c) d)"

definition reset_workspace :: "dir \<Rightarrow> nat \<times> dir" where
  "reset_workspace p =
     (let p1 = rm_rf_slash ''src'' p;
          p2 = rm_rf_slash ''docs-generated'' p1;
          p3 = remove ''tsconfig.json'' p2;
          p4 = remove ''delivery-process.config.ts'' p3;
          p5 = redirect_to ''package.json'' manifest p4
      in (0, p5))"

lemma manifest_no_scripts: "\<not> sublist ''scripts'' manifest"
  unfolding manifest_def echo_def by code_simp

lemma manifest_deps: \<open>sublist ''"dependencies": {'' manifest\<close>
  unfolding manifest_def echo_def by code_simp

lemma manifest_dev_deps: \<open>sublist ''"devDependencies": {'' manifest\<close>
  unfolding manifest_def echo_def by code_simp

lemma is_dir_remove_other: "m \<noteq> n \<Longrightarrow> is_dir (remove n d) m = is_dir d m"
  by (simp add: is_dir_def lookup_remove_other)

lemma is_file_remove_other: "m \<noteq> n \<Longrightarrow> is_file (remove n d) m = is_file d m"
  by (simp add: is_file_def lookup_remove_other)

lemma lookup_rm_rf_slash_other: "m \<noteq> n \<Longrightarrow> lookup (rm_rf_slash n d) m = lookup d m"
  by (simp add: rm_rf_slash_def lookup_remove_other)

lemma not_dir_rm_rf_slash: "\<not> is_dir (rm_rf_slash n d) n"
  by (auto simp: rm_rf_slash_def is_dir_def is_file_def lookup_remove_same
           split: option.splits node.splits)

lemma lookup_rm_rf_slash_same: "\<not> is_file d n \<Longrightarrow> lookup (rm_rf_slash n d) n = None"
  by (simp add: rm_rf_slash_def lookup_remove_same)

text \<open>
  C6. In a workspace whose \<open>package.json\<close>, if there is one, is not a directory, the reset
  cell ends with status 0 and leaves no directory \<open>src\<close> or \<open>docs-generated\<close> (no entry
  of these names at all unless one was a regular file), no \<open>tsconfig.json\<close> and no
  \<open>delivery-process.config.ts\<close>; \<open>package.json\<close> is the here-document, which declares the
  dependencies and development dependencies and has no occurrence of \<open>scripts\<close>; every
  other entry of the project is as before.
\<close>

theorem reset_workspace_resets:
  assumes "\<not> is_dir p ''package.json''"
  shows "fst (reset_workspace p) = 0 \<and>
         \<not> is_dir (snd (reset_workspace p)) ''src'' \<and>
         \<not> is_dir (snd (reset_workspace p)) ''docs-generated'' \<and>
         (\<not> is_file p ''src'' \<longrightarrow> lookup (snd (reset_workspace p)) ''src'' = None) \<and>
         (\<not> is_file p ''docs-generated'' \<longrightarrow>
            lookup (snd (reset_workspace p)) ''docs-generated'' = None) \<and>
         lookup (snd (reset_workspace p)) ''tsconfig.json'' = None \<and>
         lookup (snd (reset_workspace p)) ''delivery-process.config.ts'' = None \<and>
         lookup (snd (reset_workspace p)) ''package.json'' = Some (File manifest) \<and>
         (\<forall>n. n \<notin> {''src'', ''docs-generated'', ''tsconfig.json'',
                   ''delivery-process.config.ts'', ''package.json''} \<longrightarrow>
              lookup (snd (reset_workspace p)) n = lookup p n) \<and>
         \<not> sublist ''scripts'' manifest \<and>
         sublist ''dependencies'' manifest \<and> sublist ''devDependencies'' manifest"
proof -
  let ?p1 = "rm_rf_slash ''src'' p"
  let ?p2 = "rm_rf_slash ''docs-generated'' ?p1"
  let ?p3 = "remove ''tsconfig.json'' ?p2"
  let ?p4 = "remove ''delivery-process.config.ts'' ?p3"
  have nd: "\<not> is_dir ?p4 ''package.json''"
    using assms
    by (simp add: is_dir_def lookup_remove_other lookup_rm_rf_slash_other)
  then have r: "snd (reset_workspace p) = put ''package.json'' (File manifest) ?p4"
    by (simp add: reset_workspace_def redirect_to_def Let_def)
  have a: "fst (reset_workspace p) = 0" by (simp add: reset_workspace_def Let_def)
  have b: "\<not> is_dir (snd (reset_workspace p)) ''src''"
    unfolding r using not_dir_rm_rf_slash [of "''src''" p]
    by (simp add: is_dir_def lookup_put_other lookup_remove_other lookup_rm_rf_slash_other)
  have c: "\<not> is_dir (snd (reset_workspace p)) ''docs-generated''"
    unfolding r using not_dir_rm_rf_slash [of "''docs-generated''" ?p1]
    by (simp add: is_dir_def lookup_put_other lookup_remove_other)
  have d: "lookup (snd (reset_workspace p)) ''src'' = None" if "\<not> is_file p ''src''"
    unfolding r using lookup_rm_rf_slash_same [OF that]
    by (simp add: lookup_put_other lookup_remove_other lookup_rm_rf_slash_other)
  have e: "lookup (snd (reset_workspace p)) ''docs-generated'' = None"
    if "\<not> is_file p ''docs-generated''"
  proof -
    from that have "\<not> is_file ?p1 ''docs-generated''"
      by (simp add: is_file_def lookup_rm_rf_slash_other)
    from lookup_rm_rf_slash_same [OF this] show ?thesis
      unfolding r by (simp add: lookup_put_other lookup_remove_other)
  qed
  have f: "lookup (snd (reset_workspace p)) ''tsconfig.json'' = None"
    unfolding r by (simp add: lookup_put_other lookup_remove_other lookup_remove_same)
  have g: "lookup (snd (reset_workspace p)) ''delivery-process.config.ts'' = None"
    unfolding r by (simp add: lookup_put_other lookup_remove_same)
  have h: "lookup (snd (reset_workspace p)) ''package.json'' = Some (File manifest)"
    unfolding r by (simp add: lookup_put_same)
  have i: "lookup (snd (reset_workspace p)) n = lookup p n"
    if "n \<notin> {''src'', ''docs-generated'', ''tsconfig.json'',
                   ''delivery-process.config.ts'', ''package.json''}" for n
    unfolding r using that
    by (simp add: lookup_put_other lookup_remove_other lookup_rm_rf_slash_other)
  have j: "sublist ''dependencies'' manifest" "sublist ''devDependencies'' manifest"
    unfolding manifest_def echo_def by code_simp+
  show ?thesis
    apply (intro conjI impI allI)
    using a b c d e f g h i j manifest_no_scripts by simp_all
qed

text \<open>The reset of \<open>demo_state\<close>: \<open>src\<close> is gone, the manifest is new, \<open>node_modules\<close> stays.\<close>

theorem reset_workspace_resets_witness:
  "\<not> is_dir (proj demo_state) ''package.json'' \<and>
   \<not> is_file (proj demo_state) ''src'' \<and>
   lookup (proj demo_state) ''src'' \<noteq> None \<and>
   lookup (snd (reset_workspace (proj demo_state))) ''src'' = None \<and>
   lookup (snd (reset_workspace (proj demo_state))) ''package.json'' = Some (File manifest) \<and>
   lookup (snd (reset_workspace (proj demo_state))) ''node_modules''
     = Some (Dir [(''m.js'', File ''m'')])"
proof -
  have a: "\<not> is_dir (proj demo_state) ''package.json''"
    by (simp add: demo_state_def is_dir_def lookup_def)
  have b: "\<not> is_file (proj demo_state) ''src''"
    by (simp add: demo_state_def is_file_def lookup_def)
  have c: "lookup (proj demo_state) ''src'' \<noteq> None"
    by (simp add: demo_state_def lookup_def)
  have d: "lookup (proj demo_state) ''node_modules'' = Some (Dir [(''m.js'', File ''m'')])"
    by (simp add: demo_state_def lookup_def)
  have e: "''node_modules'' \<notin> {''src'', ''docs-generated'', ''tsconfig.json'',
                   ''delivery-process.config.ts'', ''package.json''}" by simp
  note r = reset_workspace_resets [OF a]
  from r have f: "\<not> is_file (proj demo_state) ''src'' \<longrightarrow>
             lookup (snd (reset_workspace (proj demo_state))) ''src'' = None"
    by (rule conjunct1 [OF conjunct2 [OF conjunct2 [OF conjunct2]]])
  with b have f': "lookup (snd (reset_workspace (proj demo_state))) ''src'' = None"
    by (rule rev_mp)
  from r have g: "lookup (snd (reset_workspace (proj demo_state))) ''package.json'' = Some (File manifest)"
    by (simp only:)
  note h = r [THEN conjunct2, THEN conjunct2, THEN conjunct2, THEN conjunct2, THEN conjunct2, THEN conjunct2, THEN conjunct2, THEN conjunct2, THEN conjunct1]
  from h have "''node_modules'' \<notin> {''src'', ''docs-generated'', ''tsconfig.json'',
                   ''delivery-process.config.ts'', ''package.json''} \<longrightarrow>
      lookup (snd (reset_workspace (proj demo_state))) ''node_modules''
        = lookup (proj demo_state) ''node_modules''"
    by (rule spec)
  with e have i: "lookup (snd (reset_workspace (proj demo_state))) ''node_modules''
        = lookup (proj demo_state) ''node_modules''"
    by (rule rev_mp)
  show ?thesis
    apply (intro conjI)
         apply (rule a)
        apply (rule b)
       apply (rule c)
      apply (rule f')
     apply (rule g)
    apply (simp only: i d)
    done
qed

end
